theory Spec2Isabelle
  imports Main "HOL-Library.Word" "HOL-Library.Char_ord" "HOL-Library.List_Lexorder"
begin

section \<open>Python values used by the comparator\<close>

text \<open>
  A shallow embedding of \<^verbatim>\<open>diffoscope/comparators/alpine_apk.py\<close>.
  Byte strings are lists of 8-bit words, text strings are \<^typ>\<open>string\<close>, Python's
  unbounded integers are \<^typ>\<open>int\<close>, and \<^verbatim>\<open>None\<close> is the \<^term>\<open>None\<close> of an option.
  A function that can raise returns \<open>exn + 'a\<close>, with \<^term>\<open>Inl\<close> the raised exception.
  Strings are compared as Python compares them: character by character, by the
  character codes, a proper prefix first.
\<close>

type_synonym bytes = "8 word list"

text \<open>
  An exception object: its class and the text \<^verbatim>\<open>str(exc)\<close> gives. Every class here
  is a subclass of \<^verbatim>\<open>Exception\<close>, so that \<^verbatim>\<open>except Exception\<close> catches all of them;
  \<^verbatim>\<open>KeyboardInterrupt\<close> and the like, which arrive from outside the program, are
  not modelled.
\<close>

datatype exn_class =
  OSError | ValueError | CalledProcessError | RequiredToolNotFound | AttributeError
  | Exception

datatype exn = Exn exn_class string

fun exn_cls :: "exn \<Rightarrow> exn_class" where
  "exn_cls (Exn c m) = c"

fun str_exn :: "exn \<Rightarrow> string" where
  "str_exn (Exn c m) = m"

text \<open>\<^verbatim>\<open>bytes.startswith\<close> and \<^verbatim>\<open>str.endswith\<close>.\<close>

definition startswith :: "'a list \<Rightarrow> 'a list \<Rightarrow> bool" where
  "startswith s pre = (take (length pre) s = pre)"

definition endswith :: "'a list \<Rightarrow> 'a list \<Rightarrow> bool" where
  "endswith s suf = (length suf \<le> length s \<and> drop (length s - length suf) s = suf)"

text \<open>The magic numbers: \<^verbatim>\<open>b"ADBd"\<close> and the gzip magic \<^verbatim>\<open>b"\x1f\x8b"\<close>.\<close>

definition ADBd :: bytes where
  "ADBd = [0x41, 0x44, 0x42, 0x64]"

definition gzip_magic :: bytes where
  "gzip_magic = [0x1f, 0x8b]"

text \<open>Decimal rendering of an integer, as an f-string does it.\<close>

definition digit_char :: "nat \<Rightarrow> char" where
  "digit_char d = ''0123456789'' ! d"

function str_nat :: "nat \<Rightarrow> string" where
  "str_nat n = (if n < 10 then [digit_char n] else str_nat (n div 10) @ [digit_char (n mod 10)])"
  by pat_completeness auto
termination
  by (relation "measure id") auto

definition str_int :: "int \<Rightarrow> string" where
  "str_int i = (if i < 0 then ''-'' @ str_nat (nat (- i)) else str_nat (nat i))"

text \<open>Python truthiness of a detected version: \<^verbatim>\<open>None\<close> and \<open>0\<close> are false.\<close>

fun truthy :: "int option \<Rightarrow> bool" where
  "truthy None = False"
| "truthy (Some n) = (n \<noteq> 0)"

fun str_version :: "int option \<Rightarrow> string" where
  "str_version None = ''None''"
| "str_version (Some n) = str_int n"

section \<open>The file system and the external tools\<close>

text \<open>
  What \<^verbatim>\<open>os.walk\<close> sees below a directory: a directory lists its entries in the
  order the file system happens to give them. \<open>LinkToDir\<close> is a symbolic link to a
  directory, which \<^verbatim>\<open>os.walk\<close> reports among the directories and does not enter;
  \<open>File\<close> is every entry that is not a directory.
\<close>

datatype fsnode = File | LinkToDir | Dir "(string \<times> fsnode) list"

type_synonym listing = "(string \<times> fsnode) list"

text \<open>The temporary directories on disk, by name; \<^term>\<open>None\<close> where there is none.\<close>

type_synonym disk = "string \<Rightarrow> listing option"

text \<open>
  The environment of one run:
  \<^item> \<open>env_read\<close>: the content of each file \<^verbatim>\<open>open(path, "rb")\<close> can read, \<^term>\<open>None\<close>
    for a path that cannot be opened (missing, a directory, no permission);
  \<^item> \<open>env_tools\<close>: the external tools that are installed;
  \<^item> \<open>env_run\<close>: running a command line and capturing its output, or the exception
    the executor raises;
  \<^item> \<open>env_proc\<close>: what a command run by \<^verbatim>\<open>subprocess.check_call\<close> does when its
    output is taken: its exit status, the number of bytes it writes to its standard
    output and to its standard error, and what it leaves on disk;
  \<^item> \<open>env_pipe\<close>: the number of bytes a pipe holds while nobody reads it;
  \<^item> \<open>env_mkdtemp\<close>: the name prefix of the next temporary directory, \<^term>\<open>None\<close> when
    it cannot be created.
\<close>

record env =
  env_read :: "string \<Rightarrow> bytes option"
  env_tools :: "string list"
  env_run :: "string list \<Rightarrow> exn + string"
  env_proc :: "string list \<Rightarrow> disk \<Rightarrow> (int \<times> nat \<times> nat) \<times> disk"
  env_pipe :: nat
  env_mkdtemp :: "string option"

text \<open>
  \<^verbatim>\<open>with open(path, "rb") as f: header = f.read(n)\<close>. A path with a NUL character
  is refused by \<^verbatim>\<open>open\<close> with \<^verbatim>\<open>ValueError\<close> before the file system is asked;
  otherwise the result is at most \<open>n\<close> bytes from the start of the file, or
  \<^verbatim>\<open>OSError\<close> (\<^verbatim>\<open>IOError\<close> is the same class) when the file cannot be opened.
\<close>

definition open_read :: "env \<Rightarrow> string \<Rightarrow> nat \<Rightarrow> exn + bytes" where
  "open_read e p n =
     (if CHR 0x00 \<in> set p then Inl (Exn ValueError ''embedded null byte'')
      else
        (case env_read e p of
           None \<Rightarrow> Inl (Exn OSError p)
         | Some content \<Rightarrow> Inr (take n content)))"

section \<open>Variant detection\<close>

text \<open>\<^verbatim>\<open>detect_apk_version(path)\<close>, with its \<^verbatim>\<open>except (IOError, OSError)\<close>.\<close>

definition detect_apk_version :: "env \<Rightarrow> string \<Rightarrow> exn + int option" where
  "detect_apk_version e p =
     (case open_read e p 16 of
        Inr header \<Rightarrow>
          if startswith header ADBd then Inr (Some 3)
          else if startswith header gzip_magic then Inr (Some 2)
          else Inr None
      | Inl exc \<Rightarrow> if exn_cls exc = OSError then Inr None else Inl exc)"

text \<open>A \<^verbatim>\<open>File\<close> object: the two attributes the comparator reads.\<close>

record apk_file =
  name :: string
  path :: string




section \<open>Metadata comparison\<close>

text \<open>
  Modelled from the spec: the decorator \<^verbatim>\<open>@tool_required(tool)\<close>
  (\<^verbatim>\<open>diffoscope.tools\<close> is not among the sources). When the required external tool
  is missing the method is not run and an exception that names the tool is raised;
  \<open>tool_required\<close> gives that exception, or \<^term>\<open>None\<close> when the tool is there.
\<close>

definition tool_required :: "env \<Rightarrow> string \<Rightarrow> exn option" where
  "tool_required e tool =
     (if tool \<in> set (env_tools e) then None else Some (Exn RequiredToolNotFound tool))"

text \<open>The two \<^verbatim>\<open>Command\<close> classes and their \<^verbatim>\<open>cmdline\<close> methods.\<close>

datatype operation = AlpineApkV2Metadata | AlpineApkV3Metadata

definition quote :: string where
  "quote = [CHR 0x27]"

fun cmdline :: "env \<Rightarrow> operation \<Rightarrow> string \<Rightarrow> exn + string list" where
  "cmdline e AlpineApkV2Metadata p =
     (case tool_required e ''tar'' of
        Some exc \<Rightarrow> Inl exc
      | None \<Rightarrow>
          Inr [''sh'', ''-c'',
               ''gunzip -c '' @ quote @ p @ quote
                 @ '' | tar -xOf - ./PKGINFO 2>/dev/null || echo ''
                 @ quote @ ''No PKGINFO found'' @ quote])"
| "cmdline e AlpineApkV3Metadata p =
     (case tool_required e ''apk'' of
        Some exc \<Rightarrow> Inl exc
      | None \<Rightarrow> Inr [''apk'', ''adbdump'', p])"

text \<open>
  Modelled from the spec: \<^verbatim>\<open>Difference.from_operation\<close> (\<^verbatim>\<open>diffoscope.difference\<close>
  is not among the sources), the generic executor that runs an external command on
  each of the two paths and diffs the two outputs. It gives \<^verbatim>\<open>None\<close> when the outputs
  are the same, a difference when they are not, and raises what the command line or
  the run raises.
\<close>

datatype difference = Difference string string

definition from_operation ::
  "env \<Rightarrow> operation \<Rightarrow> string \<Rightarrow> string \<Rightarrow> exn + difference option" where
  "from_operation e klass path1 path2 =
     (case cmdline e klass path1 of
        Inl exc \<Rightarrow> Inl exc
      | Inr cmd1 \<Rightarrow>
     (case env_run e cmd1 of
        Inl exc \<Rightarrow> Inl exc
      | Inr out1 \<Rightarrow>
     (case cmdline e klass path2 of
        Inl exc \<Rightarrow> Inl exc
      | Inr cmd2 \<Rightarrow>
     (case env_run e cmd2 of
        Inl exc \<Rightarrow> Inl exc
      | Inr out2 \<Rightarrow>
          if out1 = out2 then Inr None else Inr (Some (Difference out1 out2))))))"

text \<open>
  What \<^verbatim>\<open>compare_details\<close> does that its caller can observe, in order: a comment
  added to the file (\<^verbatim>\<open>self.add_comment\<close>, which appends the text to the comments of
  the file) and a metadata operation started.
\<close>

datatype event = Comment string | Operation operation

fun comments :: "event list \<Rightarrow> string list" where
  "comments [] = []"
| "comments (Comment s # evs) = s # comments evs"
| "comments (Operation k # evs) = comments evs"

fun operations :: "event list \<Rightarrow> operation list" where
  "operations [] = []"
| "operations (Comment s # evs) = operations evs"
| "operations (Operation k # evs) = k # operations evs"

text \<open>
  The \<^verbatim>\<open>try\<close> block of \<^verbatim>\<open>compare_details\<close> up to the assignment of
  \<^verbatim>\<open>metadata_diff\<close>: the value or the exception, and the operations started. The
  inner \<^verbatim>\<open>except:\<close> catches every exception of the first attempt.
\<close>

definition metadata_diff ::
  "env \<Rightarrow> int option \<Rightarrow> int option \<Rightarrow> string \<Rightarrow> string
     \<Rightarrow> (exn + difference option) \<times> event list" where
  "metadata_diff e my_version other_version path1 path2 =
     (if my_version = Some 3 \<and> other_version = Some 3 then
        (from_operation e AlpineApkV3Metadata path1 path2, [Operation AlpineApkV3Metadata])
      else if my_version = Some 2 \<and> other_version = Some 2 then
        (from_operation e AlpineApkV2Metadata path1 path2, [Operation AlpineApkV2Metadata])
      else
        (case from_operation e AlpineApkV3Metadata path1 path2 of
           Inr r \<Rightarrow> (Inr r, [Operation AlpineApkV3Metadata])
         | Inl exc \<Rightarrow>
             (from_operation e AlpineApkV2Metadata path1 path2,
              [Operation AlpineApkV3Metadata, Operation AlpineApkV2Metadata])))"

text \<open>The version comment, added only when both versions are truthy.\<close>

definition version_comment :: "int option \<Rightarrow> int option \<Rightarrow> event list" where
  "version_comment my_version other_version =
     (if truthy my_version \<and> truthy other_version then
        (if my_version \<noteq> other_version then
           [Comment (''APK version mismatch: '' @ str_version my_version
                       @ '' vs '' @ str_version other_version)]
         else [Comment (''Both files are APK v'' @ str_version my_version)])
      else [])"

text \<open>
  \<^verbatim>\<open>AlpineApkFile.compare_details(self, other)\<close>: the list of differences returned or
  the exception raised, and the events in the order they happen.
\<close>

definition compare_details ::
  "env \<Rightarrow> apk_file \<Rightarrow> apk_file \<Rightarrow> (exn + difference list) \<times> event list" where
  "compare_details e self other =
     (let differences = [] in
      case detect_apk_version e (path self) of
        Inl exc \<Rightarrow> (Inl exc, [])
      | Inr my_version \<Rightarrow>
     (case detect_apk_version e (path other) of
        Inl exc \<Rightarrow> (Inl exc, [])
      | Inr other_version \<Rightarrow>
          (let evs1 = version_comment my_version other_version;
               (r, evs2) = metadata_diff e my_version other_version (path self) (path other)
           in case r of
                Inr None \<Rightarrow> (Inr differences, evs1 @ evs2)
              | Inr (Some d) \<Rightarrow> (Inr (differences @ [d]), evs1 @ evs2)
              | Inl exc \<Rightarrow>
                  (Inr differences,
                   evs1 @ evs2
                     @ [Comment (''APK metadata extraction failed: '' @ str_exn exc)]))))"

section \<open>Containers\<close>

text \<open>
  A container object: its source file and the two attributes \<^verbatim>\<open>open_archive\<close>
  sets, \<^term>\<open>None\<close> while an attribute is not set. \<open>tmpdir\<close> holds the name of the
  temporary directory object.
\<close>

record container =
  source :: apk_file
  members :: "string list option"
  tmpdir :: "string option"

text \<open>
  Modelled from the spec: the workspace manager (\<^verbatim>\<open>diffoscope.tempfiles\<close> is not
  among the sources). \<^verbatim>\<open>get_temporary_directory(suffix=s)\<close> creates an empty
  directory whose name ends with \<open>s\<close>, or raises when it cannot; \<^verbatim>\<open>cleanup()\<close>
  deletes the directory with all it holds and does nothing when it is gone.
\<close>

definition get_temporary_directory :: "env \<Rightarrow> string \<Rightarrow> disk \<Rightarrow> (exn + string) \<times> disk" where
  "get_temporary_directory e suffix d =
     (case env_mkdtemp e of
        None \<Rightarrow> (Inl (Exn OSError suffix), d)
      | Some pre \<Rightarrow> (Inr (pre @ suffix), d(pre @ suffix := Some [])))"

definition cleanup :: "string \<Rightarrow> disk \<Rightarrow> disk" where
  "cleanup t d = d(t := None)"

text \<open>
  \<^verbatim>\<open>subprocess.check_call(cmd, stderr=..., stdout=...)\<close>: runs the command, waits
  for it and raises \<^verbatim>\<open>CalledProcessError\<close> when its exit status is not zero. A stream
  given as \<^verbatim>\<open>subprocess.PIPE\<close> goes into a pipe that \<^verbatim>\<open>check_call\<close> never reads: a
  command that writes more to it than the pipe holds waits for a reader for ever,
  and the call does not return, which is the result \<^term>\<open>None\<close>. The commands run
  here start with \<^verbatim>\<open>sh\<close> or with a tool that \<^verbatim>\<open>tool_required\<close> has found, so that
  the command can always be started.
\<close>

datatype stream = PIPE | Inherited

definition check_call ::
  "env \<Rightarrow> string list \<Rightarrow> stream \<Rightarrow> stream \<Rightarrow> disk \<Rightarrow> ((exn + unit) \<times> disk) option" where
  "check_call e cmd stderr stdout d =
     (let ((rc, out, err), d') = env_proc e cmd d in
      if (stdout = PIPE \<and> env_pipe e < out) \<or> (stderr = PIPE \<and> env_pipe e < err) then None
      else if rc \<noteq> 0 then
        Some (Inl (Exn CalledProcessError (''non-zero exit status '' @ str_int rc)), d')
      else Some (Inr (), d'))"

text \<open>\<^verbatim>\<open>os.path.join(a, b)\<close> on POSIX.\<close>

definition path_join :: "string \<Rightarrow> string \<Rightarrow> string" where
  "path_join a b =
     (if startswith b ''/'' then b
      else if a = [] \<or> endswith a ''/'' then a @ b
      else a @ ''/'' @ b)"

text \<open>\<^verbatim>\<open>DirEntry.is_dir()\<close>, which follows symbolic links.\<close>

fun is_dir :: "fsnode \<Rightarrow> bool" where
  "is_dir File = False"
| "is_dir LinkToDir = True"
| "is_dir (Dir entries) = True"

text \<open>
  The loop \<^verbatim>\<open>for root, dirs, files in os.walk(tmpdir)\<close> with its body, for the
  directory \<open>root\<close>: \<^verbatim>\<open>os.walk\<close> splits the entries into \<open>dirs\<close> and \<open>files\<close>, the
  body sorts both and appends the relative path of every file, and \<^verbatim>\<open>os.walk\<close> goes
  on with the directories in the order the body left them. The names of \<open>dirs\<close> are
  kept with the nodes they name (the sort is on the names), so that entering
  \<^verbatim>\<open>os.path.join(root, d)\<close> is entering the node of \<open>d\<close>.
\<close>

fun walk :: "string \<Rightarrow> string \<Rightarrow> fsnode \<Rightarrow> string list" where
  "walk tmp root (Dir entries) =
     (let dirs = sort_key fst (filter (\<lambda>p. is_dir (snd p)) entries);
          files = sort (map fst (filter (\<lambda>p. \<not> is_dir (snd p)) entries))
      in map (\<lambda>filename. drop (length tmp + 1) (path_join root filename)) files
           @ concat (map (\<lambda>p. walk tmp (path_join root (fst p)) (snd p)) dirs))"
| "walk tmp root LinkToDir = []"
| "walk tmp root File = []"

text \<open>The whole loop: nothing is listed when the directory is not there.\<close>

definition collect_members :: "string \<Rightarrow> disk \<Rightarrow> string list" where
  "collect_members tmp d =
     (case d tmp of None \<Rightarrow> [] | Some entries \<Rightarrow> walk tmp tmp (Dir entries))"

text \<open>
  \<^verbatim>\<open>AlpineApkV2Container.open_archive\<close>: the result, the container as the call
  leaves it and the disk, or \<^term>\<open>None\<close> when the call does not return. The
  attributes set before an exception stay set.
\<close>

definition v2_command :: "string \<Rightarrow> string \<Rightarrow> string list" where
  "v2_command src t =
     [''sh'', ''-c'',
      ''gunzip -c '' @ quote @ src @ quote @ '' | ''
        @ ''gunzip -c | ''
        @ ''tar -xf - -C '' @ quote @ t @ quote @ '' 2>/dev/null || ''
        @ ''gunzip -c '' @ quote @ src @ quote @ '' | ''
        @ ''tar -xf - -C '' @ quote @ t @ quote]"

definition AlpineApkV2Container_open_archive ::
  "env \<Rightarrow> container \<Rightarrow> disk \<Rightarrow> ((exn + unit) \<times> container \<times> disk) option" where
  "AlpineApkV2Container_open_archive e self d =
     (case tool_required e ''tar'' of
        Some exc \<Rightarrow> Some (Inl exc, self, d)
      | None \<Rightarrow>
     (let self1 = self\<lparr>members := Some []\<rparr> in
      case get_temporary_directory e ''alpine-apk-v2'' d of
        (Inl exc, d1) \<Rightarrow> Some (Inl exc, self1, d1)
      | (Inr t, d1) \<Rightarrow>
     (let self2 = self1\<lparr>tmpdir := Some t\<rparr>;
          cmd = v2_command (path (source self)) t;
          extracted =
            (case check_call e cmd PIPE PIPE d1 of
               None \<Rightarrow> None
             | Some (Inr u, d') \<Rightarrow> Some (Inr u, d')
             | Some (Inl exc, d') \<Rightarrow>
                 if exn_cls exc = CalledProcessError then
                   check_call e [''tar'', ''-xzf'', path (source self), ''-C'', t] PIPE PIPE d'
                 else Some (Inl exc, d'))
      in case extracted of
           None \<Rightarrow> None
         | Some (Inl exc, d2) \<Rightarrow> Some (Inl exc, self2, d2)
         | Some (Inr u, d2) \<Rightarrow>
             Some (Inr (), self2\<lparr>members := Some (collect_members t d2)\<rparr>, d2))))"

text \<open>\<^verbatim>\<open>AlpineApkV3Container.open_archive\<close>.\<close>

definition AlpineApkV3Container_open_archive ::
  "env \<Rightarrow> container \<Rightarrow> disk \<Rightarrow> ((exn + unit) \<times> container \<times> disk) option" where
  "AlpineApkV3Container_open_archive e self d =
     (case tool_required e ''apk'' of
        Some exc \<Rightarrow> Some (Inl exc, self, d)
      | None \<Rightarrow>
     (let self1 = self\<lparr>members := Some []\<rparr> in
      case get_temporary_directory e ''alpine-apk-v3'' d of
        (Inl exc, d1) \<Rightarrow> Some (Inl exc, self1, d1)
      | (Inr t, d1) \<Rightarrow>
     (let self2 = self1\<lparr>tmpdir := Some t\<rparr> in
      case check_call e
             [''apk'', ''--allow-untrusted'', ''extract'', ''--destination'', t,
              path (source self)] PIPE PIPE d1 of
        None \<Rightarrow> None
      | Some (Inl exc, d2) \<Rightarrow> Some (Inl exc, self2, d2)
      | Some (Inr u, d2) \<Rightarrow>
          Some (Inr (), self2\<lparr>members := Some (collect_members t d2)\<rparr>, d2))))"

text \<open>
  The other methods have the same text in both container classes.
  \<^verbatim>\<open>close_archive\<close>: \<^verbatim>\<open>hasattr(self, "_tmpdir")\<close> is \<open>tmpdir self \<noteq> None\<close>.
\<close>

definition close_archive :: "container \<Rightarrow> disk \<Rightarrow> (exn + unit) \<times> container \<times> disk" where
  "close_archive self d =
     (case tmpdir self of
        Some t \<Rightarrow> (Inr (), self, cleanup t d)
      | None \<Rightarrow> (Inr (), self, d))"

definition get_member_names :: "container \<Rightarrow> exn + string list" where
  "get_member_names self =
     (case members self of
        None \<Rightarrow> Inl (Exn AttributeError ''_members'')
      | Some ms \<Rightarrow> Inr ms)"

text \<open>\<^verbatim>\<open>ArchiveMember(self, member_name)\<close> keeps the container and the name.\<close>

datatype archive_member = ArchiveMember container string

definition get_member :: "container \<Rightarrow> string \<Rightarrow> exn + archive_member" where
  "get_member self member_name = Inr (ArchiveMember self member_name)"

text \<open>\<^verbatim>\<open>extract(self, member_name, dest_dir)\<close>, under the name \<open>extract_member\<close>.\<close>

definition extract_member :: "container \<Rightarrow> string \<Rightarrow> string \<Rightarrow> exn + string" where
  "extract_member self member_name dest_dir =
     (case tmpdir self of
        None \<Rightarrow> Inl (Exn AttributeError ''_tmpdir'')
      | Some t \<Rightarrow> Inr (path_join t member_name))"

section \<open>The order of a walk\<close>

text \<open>
  A directory is well formed when the names in it are distinct, not empty and without
  a slash, and so on below it, as in every file system.
\<close>

fun wf_node :: "fsnode \<Rightarrow> bool" where
  "wf_node (Dir entries) =
     (distinct (map fst entries)
      \<and> (\<forall>p \<in> set entries. fst p \<noteq> [] \<and> CHR ''/'' \<notin> set (fst p) \<and> wf_node (snd p)))"
| "wf_node LinkToDir = True"
| "wf_node File = True"

text \<open>The workspace of a container is well formed when it is there.\<close>

definition wf_workspace :: "container \<Rightarrow> disk \<Rightarrow> bool" where
  "wf_workspace c d =
     (case tmpdir c of
        None \<Rightarrow> True
      | Some t \<Rightarrow> (case d t of None \<Rightarrow> True | Some entries \<Rightarrow> wf_node (Dir entries)))"

text \<open>The components of a path, as \<^verbatim>\<open>path.split("/")\<close> gives them.\<close>

fun split_path :: "string \<Rightarrow> string list" where
  "split_path [] = [[]]"
| "split_path (c # cs) =
     (if c = CHR ''/'' then [] # split_path cs
      else (case split_path cs of [] \<Rightarrow> [[c]] | x # xs \<Rightarrow> (c # x) # xs))"

text \<open>
  The order of a top-down walk on lists of components: at the first level, a name that
  is a whole path (a file of this directory) comes before every longer path (a path
  through a subdirectory); two files, and two paths through different
  subdirectories, are ordered by the name; two paths through the same subdirectory
  are ordered below it.
\<close>

fun walk_less :: "string list \<Rightarrow> string list \<Rightarrow> bool" where
  "walk_less [a] [b] = (a < b)"
| "walk_less [a] (b # bs) = True"
| "walk_less (a # as) [b] = False"
| "walk_less (a # as) (b # bs) = (a < b \<or> (a = b \<and> walk_less as bs))"
| "walk_less xs ys = False"

definition walk_before :: "string \<Rightarrow> string \<Rightarrow> bool" where
  "walk_before p q = walk_less (split_path p) (split_path q)"

text \<open>
  The paths of the files below a directory, relative to it, in the order of the walk:
  what \<open>walk\<close> lists, without the prefix it adds and strips again.
\<close>

fun rel_walk :: "fsnode \<Rightarrow> string list" where
  "rel_walk (Dir entries) =
     sort (map fst (filter (\<lambda>p. \<not> is_dir (snd p)) entries))
       @ concat (map (\<lambda>p. map (\<lambda>q. fst p @ ''/'' @ q) (rel_walk (snd p)))
                   (sort_key fst (filter (\<lambda>p. is_dir (snd p)) entries)))"
| "rel_walk LinkToDir = []"
| "rel_walk File = []"

section \<open>Example inputs\<close>

text \<open>
  A gzip file, an ADB file, a path that cannot be read and a path with a NUL
  character; an extracted tree with a
  file beside two directories; an environment with both tools, in which
  \<^verbatim>\<open>apk adbdump\<close> prints a line that names its file, the metadata command of version 2
  fails, the shell pipeline of the version 2 extraction fails with a short message
  and the other extraction commands leave the example tree in the directory they
  are given, without output; a
  container that was never opened and a disk without temporary directories.
\<close>

definition apk2 :: apk_file where
  "apk2 = \<lparr>name = ''a.apk'', path = ''/in/a.apk''\<rparr>"

definition apk3 :: apk_file where
  "apk3 = \<lparr>name = ''b.apk'', path = ''/in/b.apk''\<rparr>"

definition unreadable :: apk_file where
  "unreadable = \<lparr>name = ''c.apk'', path = ''/in/c.apk''\<rparr>"


definition example_tree :: listing where
  "example_tree = [(''z'', File), (''a'', Dir [(''b'', File)]), (''a-b'', Dir [(''c'', File)])]"

definition example_env :: env where
  "example_env =
     \<lparr>env_read = (\<lambda>p. if p = ''/in/a.apk'' then Some (gzip_magic @ [8, 0])
                      else if p = ''/in/b.apk'' then Some (ADBd @ [1, 2, 3])
                      else None),
      env_tools = [''tar'', ''apk''],
      env_run = (\<lambda>cmd. if hd cmd = ''apk'' then Inr (''ADB of '' @ last cmd)
                        else Inl (Exn Exception ''sh failed'')),
      env_proc = (\<lambda>cmd d. if hd cmd = ''sh'' then ((1, 0, 120), d)
                           else ((0, 0, 0), d(cmd ! 4 := Some example_tree))),
      env_pipe = 65536,
      env_mkdtemp = Some ''/tmp/d_''\<rparr>"

definition fresh :: container where
  "fresh = \<lparr>source = apk2, members = None, tmpdir = None\<rparr>"

definition no_disk :: disk where
  "no_disk = (\<lambda>t. None)"

section \<open>Properties of detection and comparison\<close>

lemma startswith_take:
  "length pre \<le> n \<Longrightarrow> startswith (take n s) pre = startswith s pre"
  by (simp add: startswith_def min_def)


lemma detect_apk_version_eq:
  "CHR 0x00 \<notin> set p \<Longrightarrow>
   detect_apk_version e p =
     Inr (case env_read e p of
            None \<Rightarrow> None
          | Some content \<Rightarrow>
              if startswith content ADBd then Some 3
              else if startswith content gzip_magic then Some 2
              else None)"
  by (simp add: detect_apk_version_def open_read_def startswith_take ADBd_def gzip_magic_def
      split: option.splits)

lemma detect_apk_version_range:
  "detect_apk_version e p = Inr v \<Longrightarrow> v = None \<or> v = Some 2 \<or> v = Some 3"
  by (auto simp: detect_apk_version_def open_read_def split: option.splits if_splits)







lemma compare_details_unfold:
  "detect_apk_version e (path self) = Inr v1 \<Longrightarrow>
   detect_apk_version e (path other) = Inr v2 \<Longrightarrow>
   compare_details e self other =
     (case fst (metadata_diff e v1 v2 (path self) (path other)) of
        Inr None \<Rightarrow> Inr []
      | Inr (Some d) \<Rightarrow> Inr [d]
      | Inl exc \<Rightarrow> Inr [],
      version_comment v1 v2 @ snd (metadata_diff e v1 v2 (path self) (path other))
        @ (case fst (metadata_diff e v1 v2 (path self) (path other)) of
             Inr r \<Rightarrow> []
           | Inl exc \<Rightarrow> [Comment (''APK metadata extraction failed: '' @ str_exn exc)]))"
  by (cases "metadata_diff e v1 v2 (path self) (path other)")
    (simp add: compare_details_def Let_def split: sum.splits option.splits)

lemma operations_append: "operations (xs @ ys) = operations xs @ operations ys"
  by (induction xs rule: operations.induct) simp_all

lemma comments_append: "comments (xs @ ys) = comments xs @ comments ys"
  by (induction xs rule: comments.induct) simp_all

lemma operations_version_comment: "operations (version_comment v1 v2) = []"
  by (simp add: version_comment_def)

lemma detect_ex: "CHR 0x00 \<notin> set p \<Longrightarrow> \<exists>v. detect_apk_version e p = Inr v"
  by (simp add: detect_apk_version_eq)

text \<open>
  Claim C2 as it is written fails: with a version 2 file first and a version 3 file
  second, the only operation attempted is the version 3 one; the strategy of the first
  file's variant is never attempted.
\<close>

theorem compare_details_mixed_order_counterexample:
  "detect_apk_version example_env (path apk2) = Inr (Some 2)
   \<and> detect_apk_version example_env (path apk3) = Inr (Some 3)
   \<and> operations (snd (compare_details example_env apk2 apk3)) = [AlpineApkV3Metadata]"
  by (simp add: compare_details_def example_env_def apk2_def apk3_def detect_apk_version_def
      open_read_def startswith_def ADBd_def gzip_magic_def version_comment_def
      metadata_diff_def from_operation_def tool_required_def)

text \<open>
  Claim C2, amended. When the two detected variants differ or either is unrecognized,
  \<open>compare_details\<close> attempts the version 3 operation first, whatever the variants
  are, and the version 2 operation only when the version 3 operation raised.
\<close>

theorem compare_details_mixed_order:
  assumes "detect_apk_version e (path self) = Inr v1"
    and "detect_apk_version e (path other) = Inr v2"
    and "v1 \<noteq> v2 \<or> v1 = None \<or> v2 = None"
  shows "operations (snd (compare_details e self other)) =
           (case from_operation e AlpineApkV3Metadata (path self) (path other) of
              Inr r \<Rightarrow> [AlpineApkV3Metadata]
            | Inl exc \<Rightarrow> [AlpineApkV3Metadata, AlpineApkV2Metadata])"
proof -
  from assms(3) have "\<not> (v1 = Some 3 \<and> v2 = Some 3)" and "\<not> (v1 = Some 2 \<and> v2 = Some 2)"
    by auto
  then have "snd (metadata_diff e v1 v2 (path self) (path other)) =
      (case from_operation e AlpineApkV3Metadata (path self) (path other) of
         Inr r \<Rightarrow> [Operation AlpineApkV3Metadata]
       | Inl exc \<Rightarrow> [Operation AlpineApkV3Metadata, Operation AlpineApkV2Metadata])"
    and "fst (metadata_diff e v1 v2 (path self) (path other)) =
      (case from_operation e AlpineApkV3Metadata (path self) (path other) of
         Inr r \<Rightarrow> Inr r
       | Inl exc \<Rightarrow> from_operation e AlpineApkV2Metadata (path self) (path other))"
    by (auto simp: metadata_diff_def split: sum.splits)
  then show ?thesis
    by (simp add: compare_details_unfold [OF assms(1,2)] operations_append
        operations_version_comment split: sum.splits)
qed

text \<open>Claim C2, amended, with the tools missing and with an unreadable first file.\<close>

theorem compare_details_mixed_order_witness:
  "operations (snd (compare_details (example_env\<lparr>env_tools := []\<rparr>) apk2 apk3))
     = [AlpineApkV3Metadata, AlpineApkV2Metadata]
   \<and> operations (snd (compare_details example_env unreadable apk3)) = [AlpineApkV3Metadata]"
proof -
  have a: "detect_apk_version (example_env\<lparr>env_tools := []\<rparr>) (path apk2) = Inr (Some 2)"
    and b: "detect_apk_version (example_env\<lparr>env_tools := []\<rparr>) (path apk3) = Inr (Some 3)"
    and c: "detect_apk_version example_env (path unreadable) = Inr None"
    and d: "detect_apk_version example_env (path apk3) = Inr (Some 3)"
    by (simp_all add: detect_apk_version_eq example_env_def apk2_def apk3_def unreadable_def
        startswith_def ADBd_def gzip_magic_def)
  show ?thesis
    using compare_details_mixed_order [OF a b] compare_details_mixed_order [OF c d]
    by (simp add: from_operation_def tool_required_def example_env_def apk3_def unreadable_def)
qed


text \<open>
  Claim C3 as it is written fails: an unreadable first file and a version 3 second
  file have different detected variants, and no comment at all is added.
\<close>

theorem compare_details_comment_counterexample:
  "detect_apk_version example_env (path unreadable) = Inr None
   \<and> detect_apk_version example_env (path apk3) = Inr (Some 3)
   \<and> comments (snd (compare_details example_env unreadable apk3)) = []"
  by (simp add: compare_details_def example_env_def unreadable_def apk3_def detect_apk_version_def
      open_read_def startswith_def ADBd_def gzip_magic_def version_comment_def
      metadata_diff_def from_operation_def tool_required_def)

text \<open>
  Claim C3, amended. When both inputs are recognized, the first thing
  \<open>compare_details\<close> does is to add the comment that says whether the two versions
  are the same or differ: it precedes every metadata operation and is there whether
  or not the metadata extraction fails afterwards. Two different recognized versions
  give the mismatch comment, which names both.
\<close>

theorem compare_details_comment_first:
  assumes "detect_apk_version e (path self) = Inr (Some a)"
    and "detect_apk_version e (path other) = Inr (Some b)"
  shows "take 1 (snd (compare_details e self other)) =
           [Comment (if a \<noteq> b
                     then ''APK version mismatch: '' @ str_int a @ '' vs '' @ str_int b
                     else ''Both files are APK v'' @ str_int a)]"
proof -
  from detect_apk_version_range [OF assms(1)] detect_apk_version_range [OF assms(2)]
  have "a \<noteq> 0" and "b \<noteq> 0" by auto
  then have "version_comment (Some a) (Some b) =
      [Comment (if a \<noteq> b
                then ''APK version mismatch: '' @ str_int a @ '' vs '' @ str_int b
                else ''Both files are APK v'' @ str_int a)]"
    by (simp add: version_comment_def)
  then show ?thesis
    by (simp add: compare_details_unfold [OF assms])
qed

text \<open>Claim C3, amended, on a version 2 and a version 3 file with the tools missing.\<close>

theorem compare_details_comment_first_witness:
  "take 1 (snd (compare_details (example_env\<lparr>env_tools := []\<rparr>) apk2 apk3))
     = [Comment ''APK version mismatch: 2 vs 3'']
   \<and> comments (snd (compare_details (example_env\<lparr>env_tools := []\<rparr>) apk2 apk3))
     = [''APK version mismatch: 2 vs 3'', ''APK metadata extraction failed: tar'']"
proof -
  have a: "detect_apk_version (example_env\<lparr>env_tools := []\<rparr>) (path apk2) = Inr (Some 2)"
    and b: "detect_apk_version (example_env\<lparr>env_tools := []\<rparr>) (path apk3) = Inr (Some 3)"
    by (simp_all add: detect_apk_version_eq example_env_def apk2_def apk3_def
        startswith_def ADBd_def gzip_magic_def)
  have c: "comments (snd (compare_details (example_env\<lparr>env_tools := []\<rparr>) apk2 apk3))
     = [''APK version mismatch: 2 vs 3'', ''APK metadata extraction failed: tar'']"
    by (simp add: compare_details_def example_env_def apk2_def apk3_def detect_apk_version_def
        open_read_def startswith_def ADBd_def gzip_magic_def version_comment_def
        metadata_diff_def from_operation_def tool_required_def str_int_def digit_char_def)
  show ?thesis
    using compare_details_comment_first [OF a b] c
    by (simp add: str_int_def digit_char_def)
qed


lemma from_operation_same:
  "from_operation e k p p = Inr r \<Longrightarrow> r = None"
  by (auto simp: from_operation_def split: sum.splits if_splits)

lemma metadata_diff_same:
  "fst (metadata_diff e v v p p) = Inr r \<Longrightarrow> r = None"
  by (auto simp: metadata_diff_def split: sum.splits if_splits dest: from_operation_same)

lemma comments_metadata_diff: "comments (snd (metadata_diff e v1 v2 p1 p2)) = []"
  by (simp add: metadata_diff_def split: sum.splits)

text \<open>
  Claim C8. Comparing a file against itself returns the empty list of differences,
  and none of the comments added is a mismatch comment. The file is one whose path
  \<^verbatim>\<open>open\<close> accepts (no NUL character), as every file that was recognized is.
\<close>

theorem compare_details_self:
  assumes "CHR 0x00 \<notin> set (path f)"
  shows "fst (compare_details e f f) = Inr []
   \<and> (\<forall>c \<in> set (comments (snd (compare_details e f f))).
         \<not> startswith c ''APK version mismatch'')"
proof -
  obtain v where v: "detect_apk_version e (path f) = Inr v"
    using detect_ex [OF assms] by blast
  have r: "fst (metadata_diff e v v (path f) (path f)) \<noteq> Inr (Some d)" for d
    using metadata_diff_same by fastforce
  have vc: "\<forall>c \<in> set (comments (version_comment v v)). \<not> startswith c ''APK version mismatch''"
    by (simp add: version_comment_def startswith_def)
  have "fst (compare_details e f f) = Inr []"
    using r by (simp add: compare_details_unfold [OF v v] split: sum.splits option.splits)
  moreover have "\<forall>c \<in> set (comments (snd (compare_details e f f))).
         \<not> startswith c ''APK version mismatch''"
    using vc
    by (auto simp: compare_details_unfold [OF v v] comments_append comments_metadata_diff
        startswith_def split: sum.splits)
  ultimately show ?thesis by simp
qed

text \<open>Claim C8 on a version 3 file.\<close>

theorem compare_details_self_witness:
  "CHR 0x00 \<notin> set (path apk3)
   \<and> compare_details example_env apk3 apk3
     = (Inr [], [Comment ''Both files are APK v3'', Operation AlpineApkV3Metadata])
   \<and> \<not> startswith ''Both files are APK v3'' ''APK version mismatch''"
proof -
  have c: "compare_details example_env apk3 apk3
     = (Inr [], [Comment ''Both files are APK v3'', Operation AlpineApkV3Metadata])"
    by (simp add: compare_details_def example_env_def apk3_def detect_apk_version_def
        open_read_def startswith_def ADBd_def gzip_magic_def version_comment_def
        metadata_diff_def from_operation_def tool_required_def str_int_def digit_char_def)
  show ?thesis
    using compare_details_self [of apk3 example_env] c by (simp add: apk3_def)
qed

text \<open>
  Claim C7. If every metadata operation that \<open>compare_details\<close> attempts raises,
  the call does not raise: it returns the list of differences, which is empty, and
  the last thing it does is to add the comment that the metadata extraction failed,
  with the text of the exception the last attempt raised. The two files are ones
  whose paths \<^verbatim>\<open>open\<close> accepts (no NUL character), so that the detection, which
  comes before every attempt, returns.
\<close>

theorem compare_details_extraction_failed:
  assumes "CHR 0x00 \<notin> set (path self)" and "CHR 0x00 \<notin> set (path other)"
    and "\<forall>k \<in> set (operations (snd (compare_details e self other))).
             isl (from_operation e k (path self) (path other))"
  shows "fst (compare_details e self other) = Inr []
         \<and> (\<exists>exc. from_operation e (last (operations (snd (compare_details e self other))))
                     (path self) (path other) = Inl exc
                 \<and> last (snd (compare_details e self other))
                     = Comment (''APK metadata extraction failed: '' @ str_exn exc))"
proof -
  obtain v1 where v1: "detect_apk_version e (path self) = Inr v1"
    using detect_ex [OF assms(1)] by blast
  obtain v2 where v2: "detect_apk_version e (path other) = Inr v2"
    using detect_ex [OF assms(2)] by blast
  let ?m = "metadata_diff e v1 v2 (path self) (path other)"
  have ops: "operations (snd (compare_details e self other)) = operations (snd ?m)"
    by (simp add: compare_details_unfold [OF v1 v2] operations_append
        operations_version_comment split: sum.splits)
  have "\<exists>exc. fst ?m = Inl exc
           \<and> from_operation e (last (operations (snd ?m))) (path self) (path other) = Inl exc"
    using assms(3) unfolding ops
    by (auto simp: metadata_diff_def isl_def split: sum.splits if_splits)
  then obtain exc where exc: "fst ?m = Inl exc"
    and lst: "from_operation e (last (operations (snd ?m))) (path self) (path other) = Inl exc"
    by blast
  have "fst (compare_details e self other) = Inr []"
    by (simp add: compare_details_unfold [OF v1 v2] exc)
  moreover have "last (snd (compare_details e self other))
      = Comment (''APK metadata extraction failed: '' @ str_exn exc)"
    by (simp add: compare_details_unfold [OF v1 v2] exc)
  ultimately show ?thesis
    using lst unfolding ops by blast
qed

text \<open>Claim C7 on a version 2 and a version 3 file with the tools missing.\<close>

theorem compare_details_extraction_failed_witness:
  "compare_details (example_env\<lparr>env_tools := []\<rparr>) apk2 apk3
     = (Inr [], [Comment ''APK version mismatch: 2 vs 3'', Operation AlpineApkV3Metadata,
                 Operation AlpineApkV2Metadata,
                 Comment ''APK metadata extraction failed: tar''])
   \<and> isl (from_operation (example_env\<lparr>env_tools := []\<rparr>) AlpineApkV3Metadata (path apk2) (path apk3))
   \<and> isl (from_operation (example_env\<lparr>env_tools := []\<rparr>) AlpineApkV2Metadata (path apk2) (path apk3))"
proof -
  have c: "compare_details (example_env\<lparr>env_tools := []\<rparr>) apk2 apk3
     = (Inr [], [Comment ''APK version mismatch: 2 vs 3'', Operation AlpineApkV3Metadata,
                 Operation AlpineApkV2Metadata,
                 Comment ''APK metadata extraction failed: tar''])"
    by (simp add: compare_details_def example_env_def apk2_def apk3_def detect_apk_version_def
        open_read_def startswith_def ADBd_def gzip_magic_def version_comment_def
        metadata_diff_def from_operation_def tool_required_def str_int_def digit_char_def)
  have i: "isl (from_operation (example_env\<lparr>env_tools := []\<rparr>) AlpineApkV3Metadata (path apk2) (path apk3))"
    "isl (from_operation (example_env\<lparr>env_tools := []\<rparr>) AlpineApkV2Metadata (path apk2) (path apk3))"
    by (simp_all add: from_operation_def tool_required_def example_env_def)
  show ?thesis
    using compare_details_extraction_failed [of apk2 apk3 "example_env\<lparr>env_tools := []\<rparr>"] c i
    by (simp add: apk2_def apk3_def)
qed

section \<open>Properties of the walk\<close>

lemma endswith_slash: "endswith a ''/'' = (a \<noteq> [] \<and> last a = CHR ''/'')"
proof (cases "a = []")
  case True
  then show ?thesis by (simp add: endswith_def)
next
  case False
  then have "a = butlast a @ [last a]" by simp
  then have "drop (length a - 1) a = [last a]"
    by (metis append_eq_conv_conj length_butlast)
  with False show ?thesis by (auto simp: endswith_def Suc_le_eq)
qed

lemma path_join_child:
  assumes "root \<noteq> []" "last root \<noteq> CHR ''/''" "CHR ''/'' \<notin> set n"
  shows "path_join root n = root @ ''/'' @ n"
proof -
  have "\<not> startswith n ''/''"
    using assms(3) by (cases n) (auto simp: startswith_def)
  then show ?thesis
    using assms(1,2) by (simp add: path_join_def endswith_slash)
qed

lemma walk_rel_walk:
  "wf_node node \<Longrightarrow> root \<noteq> [] \<Longrightarrow> last root \<noteq> CHR ''/'' \<Longrightarrow>
   walk tmp root node = map (\<lambda>q. drop (length tmp + 1) (root @ ''/'' @ q)) (rel_walk node)"
proof (induction tmp root node rule: walk.induct)
  case (1 tmp root entries)
  let ?dirs = "sort_key fst (filter (\<lambda>p. is_dir (snd p)) entries)"
  let ?files = "sort (map fst (filter (\<lambda>p. \<not> is_dir (snd p)) entries))"
  have names: "fst p \<noteq> []" "CHR ''/'' \<notin> set (fst p)" "wf_node (snd p)" if "p \<in> set entries" for p
    using "1.prems"(1) that by auto
  have files: "map (\<lambda>filename. drop (length tmp + 1) (path_join root filename)) ?files
      = map (\<lambda>q. drop (length tmp + 1) (root @ ''/'' @ q)) ?files"
    using names "1.prems"(2,3) by (auto simp: path_join_child)
  have sub: "walk tmp (path_join root (fst p)) (snd p)
      = map (\<lambda>q. drop (length tmp + 1) (root @ ''/'' @ q))
          (map (\<lambda>q. fst p @ ''/'' @ q) (rel_walk (snd p)))"
    if p: "p \<in> set ?dirs" for p
  proof -
    from p have pe: "p \<in> set entries" by simp
    have j: "path_join root (fst p) = root @ ''/'' @ fst p"
      using names [OF pe] "1.prems"(2,3) by (simp add: path_join_child)
    have "last (fst p) \<noteq> CHR ''/''"
      using names(1,2) [OF pe] by (metis last_in_set)
    then have ne: "root @ ''/'' @ fst p \<noteq> []"
      and l: "last (root @ ''/'' @ fst p) \<noteq> CHR ''/''"
      using names(1) [OF pe] by simp_all
    have "walk tmp (path_join root (fst p)) (snd p)
        = map (\<lambda>q. drop (length tmp + 1) (path_join root (fst p) @ ''/'' @ q)) (rel_walk (snd p))"
      using "1.IH" [OF refl refl p] names(3) [OF pe] ne l unfolding j by simp
    then show ?thesis by (simp add: j comp_def)
  qed
  have m: "map (\<lambda>p. walk tmp (path_join root (fst p)) (snd p)) ?dirs
      = map (\<lambda>p. map (\<lambda>q. drop (length tmp + 1) (root @ ''/'' @ q))
          (map (\<lambda>q. fst p @ ''/'' @ q) (rel_walk (snd p)))) ?dirs"
    by (rule map_cong [OF refl]) (rule sub)
  have l: "walk tmp root (Dir entries)
      = map (\<lambda>filename. drop (length tmp + 1) (path_join root filename)) ?files
          @ concat (map (\<lambda>p. walk tmp (path_join root (fst p)) (snd p)) ?dirs)"
    by (simp add: Let_def)
  have r: "map (\<lambda>q. drop (length tmp + 1) (root @ ''/'' @ q)) (rel_walk (Dir entries))
      = map (\<lambda>q. drop (length tmp + 1) (root @ ''/'' @ q)) ?files
          @ concat (map (\<lambda>p. map (\<lambda>q. drop (length tmp + 1) (root @ ''/'' @ q))
              (map (\<lambda>q. fst p @ ''/'' @ q) (rel_walk (snd p)))) ?dirs)"
    by (simp add: map_concat comp_def)
  show ?case
    unfolding l r files m by (rule refl)
qed simp_all


lemma split_path_ne: "split_path s \<noteq> []"
  by (induction s) (auto split: list.splits)

lemma split_path_single: "CHR ''/'' \<notin> set f \<Longrightarrow> split_path f = [f]"
  by (induction f) auto

lemma split_path_child:
  "CHR ''/'' \<notin> set d \<Longrightarrow> split_path (d @ CHR ''/'' # q) = d # split_path q"
  by (induction d) auto

lemma walk_less_irrefl: "\<not> walk_less xs xs"
proof (induction xs)
  case Nil
  show ?case by simp
next
  case (Cons a xs)
  then show ?case by (cases xs) auto
qed

lemma walk_less_file_dir: "ys \<noteq> [] \<Longrightarrow> walk_less [a] (b # ys)"
  by (cases ys) auto

lemma walk_less_Cons:
  "xs \<noteq> [] \<Longrightarrow> ys \<noteq> [] \<Longrightarrow>
   walk_less (a # xs) (b # ys) = (a < b \<or> (a = b \<and> walk_less xs ys))"
  by (cases xs; cases ys) auto

lemma sorted_wrt_concat:
  "(\<forall>xs \<in> set xss. sorted_wrt P xs) \<Longrightarrow>
   sorted_wrt (\<lambda>xs ys. \<forall>x \<in> set xs. \<forall>y \<in> set ys. P x y) xss \<Longrightarrow>
   sorted_wrt P (concat xss)"
  by (induction xss) (auto simp: sorted_wrt_append)

lemma sorted_wrt_irrefl_distinct:
  "sorted_wrt P xs \<Longrightarrow> (\<And>x. \<not> P x x) \<Longrightarrow> distinct xs"
  by (induction xs) auto

lemma strict_sorted_sort_key:
  assumes "distinct (map f ys)"
  shows "sorted_wrt (\<lambda>p q. f p < f q) (sort_key f ys)"
proof -
  from assms have "distinct ys" and "inj_on f (set ys)"
    by (simp_all add: distinct_map)
  then have "distinct (map f (sort_key f ys))"
    by (simp add: distinct_map)
  then have "sorted_wrt (<) (map f (sort_key f ys))"
    by (simp add: strict_sorted_iff)
  then show ?thesis
    by (simp add: sorted_wrt_map)
qed

lemma rel_walk_sorted:
  "wf_node node \<Longrightarrow> sorted_wrt walk_before (rel_walk node)"
proof (induction node rule: rel_walk.induct)
  case (1 entries)
  let ?dirs = "sort_key fst (filter (\<lambda>p. is_dir (snd p)) entries)"
  let ?files = "sort (map fst (filter (\<lambda>p. \<not> is_dir (snd p)) entries))"
  let ?sub = "\<lambda>p. map (\<lambda>q. fst p @ ''/'' @ q) (rel_walk (snd p))"
  have names: "CHR ''/'' \<notin> set (fst p)" "wf_node (snd p)" if "p \<in> set entries" for p
    using "1.prems" that by auto
  have dist: "distinct (map fst entries)"
    using "1.prems" by simp
  have file_name: "CHR ''/'' \<notin> set f" if "f \<in> set ?files" for f
    using that names(1) by auto
  have in_sub: "split_path x = fst p # split_path (drop (length (fst p) + 1) x)
                \<and> drop (length (fst p) + 1) x \<in> set (rel_walk (snd p))"
    if "p \<in> set ?dirs" "x \<in> set (?sub p)" for p x
  proof -
    from that(2) obtain q where q: "q \<in> set (rel_walk (snd p))" "x = fst p @ ''/'' @ q"
      by auto
    from that(1) have "CHR ''/'' \<notin> set (fst p)"
      using names(1) by simp
    then show ?thesis
      using q by (simp add: split_path_child)
  qed
  have "distinct (map fst (filter (\<lambda>p. \<not> is_dir (snd p)) entries))"
    using dist by (rule distinct_map_filter)
  then have "sorted_wrt (<) ?files"
    by (simp add: strict_sorted_iff)
  then have files: "sorted_wrt walk_before ?files"
    by (rule sorted_wrt_mono_rel [rotated])
      (simp add: walk_before_def split_path_single file_name)
  have each: "sorted_wrt walk_before (?sub p)" if p: "p \<in> set ?dirs" for p
  proof -
    from p have pe: "p \<in> set entries" by simp
    have ih: "sorted_wrt walk_before (rel_walk (snd p))"
      using "1.IH" [OF p] names(2) [OF pe] by simp
    have "walk_before (fst p @ ''/'' @ x) (fst p @ ''/'' @ y) = walk_before x y" for x y
      using names(1) [OF pe]
      by (simp add: walk_before_def split_path_child walk_less_Cons split_path_ne)
    then show ?thesis
      using ih by (simp add: sorted_wrt_map)
  qed
  have "distinct (map fst (filter (\<lambda>p. is_dir (snd p)) entries))"
    using dist by (rule distinct_map_filter)
  then have "sorted_wrt (\<lambda>p q. fst p < fst q) ?dirs"
    by (rule strict_sorted_sort_key)
  then have "sorted_wrt (\<lambda>p q. \<forall>x \<in> set (?sub p). \<forall>y \<in> set (?sub q). walk_before x y) ?dirs"
  proof (rule sorted_wrt_mono_rel [rotated])
    fix p q
    assume p: "p \<in> set ?dirs" and q: "q \<in> set ?dirs" and lt: "fst p < fst q"
    show "\<forall>x \<in> set (?sub p). \<forall>y \<in> set (?sub q). walk_before x y"
    proof (intro ballI)
      fix x y
      assume x: "x \<in> set (?sub p)" and y: "y \<in> set (?sub q)"
      from in_sub [OF p x] in_sub [OF q y] lt show "walk_before x y"
        by (simp add: walk_before_def walk_less_Cons split_path_ne)
    qed
  qed
  then have dirs: "sorted_wrt walk_before (concat (map ?sub ?dirs))"
    using each by (intro sorted_wrt_concat) (auto simp: sorted_wrt_map)
  have cross: "walk_before f x" if f: "f \<in> set ?files" and x: "x \<in> set (concat (map ?sub ?dirs))" for f x
  proof -
    from x obtain p where p: "p \<in> set ?dirs" "x \<in> set (?sub p)"
      by auto
    from in_sub [OF p] file_name [OF f] show ?thesis
      by (simp add: walk_before_def split_path_single walk_less_file_dir split_path_ne)
  qed
  show ?case
    using files dirs cross by (simp add: sorted_wrt_append)
qed simp_all

lemma collect_members_sorted:
  assumes "t \<noteq> []" "last t \<noteq> CHR ''/''"
    and "case d t of None \<Rightarrow> True | Some entries \<Rightarrow> wf_node (Dir entries)"
  shows "sorted_wrt walk_before (collect_members t d)"
proof (cases "d t")
  case None
  then show ?thesis by (simp add: collect_members_def)
next
  case (Some entries)
  with assms(3) have wf: "wf_node (Dir entries)" by simp
  have "walk t t (Dir entries) = rel_walk (Dir entries)"
    using walk_rel_walk [OF wf assms(1,2), of t] by (simp add: map_idI)
  then show ?thesis
    using rel_walk_sorted [OF wf] Some by (simp add: collect_members_def)
qed


section \<open>Properties of the containers\<close>


lemma check_call_raises:
  "check_call e cmd so se d = Some (Inl exc, d') \<Longrightarrow> exn_cls exc = CalledProcessError"
  by (auto simp: check_call_def Let_def split: prod.splits if_splits)




lemma v2_open_archive_tmpdir:
  "tool_required e ''tar'' = None \<Longrightarrow> env_mkdtemp e = Some pre \<Longrightarrow>
   AlpineApkV2Container_open_archive e c0 d0 = Some (r, c, d) \<Longrightarrow>
   tmpdir c = Some (pre @ ''alpine-apk-v2'')"
  by (auto simp: AlpineApkV2Container_open_archive_def get_temporary_directory_def
      Let_def split: prod.splits sum.splits option.splits if_splits)

lemma v3_open_archive_tmpdir:
  "tool_required e ''apk'' = None \<Longrightarrow> env_mkdtemp e = Some pre \<Longrightarrow>
   AlpineApkV3Container_open_archive e c0 d0 = Some (r, c, d) \<Longrightarrow>
   tmpdir c = Some (pre @ ''alpine-apk-v3'')"
  by (auto simp: AlpineApkV3Container_open_archive_def get_temporary_directory_def
      Let_def split: prod.splits sum.splits option.splits if_splits)

lemma v2_open_archive_early:
  "tool_required e ''tar'' \<noteq> None \<or> env_mkdtemp e = None \<Longrightarrow>
   AlpineApkV2Container_open_archive e c0 d0 = Some (r, c, d) \<Longrightarrow>
   tmpdir c = tmpdir c0 \<and> d = d0 \<and> isl r"
  by (auto simp: AlpineApkV2Container_open_archive_def get_temporary_directory_def
      Let_def split: prod.splits sum.splits option.splits)

lemma v3_open_archive_early:
  "tool_required e ''apk'' \<noteq> None \<or> env_mkdtemp e = None \<Longrightarrow>
   AlpineApkV3Container_open_archive e c0 d0 = Some (r, c, d) \<Longrightarrow>
   tmpdir c = tmpdir c0 \<and> d = d0 \<and> isl r"
  by (auto simp: AlpineApkV3Container_open_archive_def get_temporary_directory_def
      Let_def split: prod.splits sum.splits option.splits)

lemma close_archive_cases:
  "close_archive c d = (Inr (), c, case tmpdir c of None \<Rightarrow> d | Some t \<Rightarrow> cleanup t d)"
  by (simp add: close_archive_def split: option.splits)

text \<open>
  Claim C9. Whatever \<open>open_archive\<close> of either class did before it returned,
  \<open>close_archive\<close> after it returns normally, and a second \<open>close_archive\<close>
  returns normally and changes nothing. After the first one no temporary directory of
  the container is on disk: when the tool was found and the directory was created,
  that directory is gone, whether the extraction succeeded or not. When
  \<open>open_archive\<close> failed before the directory was created, \<open>close_archive\<close> does
  nothing.
\<close>

theorem close_archive_safe:
  assumes "opn = AlpineApkV2Container_open_archive \<and> tool = ''tar'' \<and> suffix = ''alpine-apk-v2''
         \<or> opn = AlpineApkV3Container_open_archive \<and> tool = ''apk'' \<and> suffix = ''alpine-apk-v3''"
    and "opn e c0 d0 = Some (r, c, d)"
    and "close_archive c d = (r1, c1, d1)"
    and "close_archive c1 d1 = (r2, c2, d2)"
  shows "r1 = Inr () \<and> r2 = Inr () \<and> c2 = c1 \<and> d2 = d1
       \<and> (\<forall>t. tmpdir c = Some t \<longrightarrow> d1 t = None)
       \<and> (\<forall>pre. tool_required e tool = None \<and> env_mkdtemp e = Some pre
             \<longrightarrow> tmpdir c = Some (pre @ suffix) \<and> d1 (pre @ suffix) = None)
       \<and> ((tool_required e tool \<noteq> None \<or> env_mkdtemp e = None) \<and> tmpdir c0 = None
             \<longrightarrow> isl r \<and> tmpdir c = None \<and> c1 = c \<and> d1 = d0)"
proof -
  from assms(3) have 1: "r1 = Inr ()" "c1 = c"
    and d1: "d1 = (case tmpdir c of None \<Rightarrow> d | Some t \<Rightarrow> cleanup t d)"
    by (auto simp: close_archive_cases)
  from assms(4) have 2: "r2 = Inr ()" "c2 = c1"
    and d2: "d2 = (case tmpdir c1 of None \<Rightarrow> d1 | Some t \<Rightarrow> cleanup t d1)"
    by (auto simp: close_archive_cases)
  have idem: "d2 = d1"
    unfolding d2 \<open>c1 = c\<close> d1 by (auto simp: cleanup_def split: option.splits)
  have gone: "\<forall>t. tmpdir c = Some t \<longrightarrow> d1 t = None"
    unfolding d1 by (simp add: cleanup_def)
  have created: "tmpdir c = Some (pre @ suffix)"
    if "tool_required e tool = None" "env_mkdtemp e = Some pre" for pre
    using assms(1,2) that v2_open_archive_tmpdir [of e pre c0 d0 r c d]
      v3_open_archive_tmpdir [of e pre c0 d0 r c d] by auto
  have early: "isl r \<and> tmpdir c = None \<and> d = d0"
    if "tool_required e tool \<noteq> None \<or> env_mkdtemp e = None" "tmpdir c0 = None"
    using assms(1,2) that v2_open_archive_early [of e c0 d0 r c d]
      v3_open_archive_early [of e c0 d0 r c d]
    by auto
  have noop: "d1 = d0"
    if "tool_required e tool \<noteq> None \<or> env_mkdtemp e = None" "tmpdir c0 = None"
    using early [OF that] d1 by simp
  show ?thesis
    using 1 2 idem gone created early noop by auto
qed

text \<open>
  Claim C9 after a version 2 extraction in which both commands fail, and after a
  version 3 \<open>open_archive\<close> without the \<^verbatim>\<open>apk\<close> tool.
\<close>

theorem close_archive_safe_witness:
  "(\<exists>r c d. AlpineApkV2Container_open_archive
               (example_env\<lparr>env_proc := \<lambda>cmd d. ((2, 0, 0), d)\<rparr>) fresh no_disk = Some (r, c, d)
       \<and> isl r \<and> tmpdir c = Some ''/tmp/d_alpine-apk-v2''
       \<and> d ''/tmp/d_alpine-apk-v2'' = Some []
       \<and> snd (snd (close_archive c d)) ''/tmp/d_alpine-apk-v2'' = None)
   \<and> (\<exists>r c d. AlpineApkV3Container_open_archive (example_env\<lparr>env_tools := []\<rparr>) fresh no_disk
               = Some (r, c, d)
       \<and> isl r \<and> close_archive c d = (Inr (), c, no_disk))"
proof -
  let ?e = "example_env\<lparr>env_proc := \<lambda>cmd d. ((2, 0, 0), d)\<rparr>"
  let ?e3 = "example_env\<lparr>env_tools := []\<rparr>"
  obtain r c d where o: "AlpineApkV2Container_open_archive ?e fresh no_disk = Some (r, c, d)"
    and ev: "isl r" "d ''/tmp/d_alpine-apk-v2'' = Some []"
    by (simp add: AlpineApkV2Container_open_archive_def get_temporary_directory_def
        check_call_def example_env_def tool_required_def Let_def)
  obtain r1 c1 d1 where cl: "close_archive c d = (r1, c1, d1)"
    by (cases "close_archive c d") auto
  obtain r2 c2 d2 where cl2: "close_archive c1 d1 = (r2, c2, d2)"
    by (cases "close_archive c1 d1") auto
  have t: "tool_required ?e ''tar'' = None" "env_mkdtemp ?e = Some ''/tmp/d_''"
    by (simp_all add: tool_required_def example_env_def)
  have first: "tmpdir c = Some ''/tmp/d_alpine-apk-v2'' \<and> d1 ''/tmp/d_alpine-apk-v2'' = None"
    using close_archive_safe [of AlpineApkV2Container_open_archive "''tar''" "''alpine-apk-v2''"
        ?e fresh no_disk r c d r1 c1 d1 r2 c2 d2] o cl cl2 t
    by simp
  obtain r' c' d' where o3: "AlpineApkV3Container_open_archive ?e3 fresh no_disk = Some (r', c', d')"
    by (simp add: AlpineApkV3Container_open_archive_def tool_required_def example_env_def)
  obtain r1' c1' d1' where cl': "close_archive c' d' = (r1', c1', d1')"
    by (cases "close_archive c' d'") auto
  obtain r2' c2' d2' where cl2': "close_archive c1' d1' = (r2', c2', d2')"
    by (cases "close_archive c1' d1'") auto
  have t3: "tool_required ?e3 ''apk'' \<noteq> None" "tmpdir fresh = None"
    by (simp_all add: tool_required_def example_env_def fresh_def)
  have second: "isl r' \<and> r1' = Inr () \<and> c1' = c' \<and> d1' = no_disk"
    using close_archive_safe [of AlpineApkV3Container_open_archive "''apk''" "''alpine-apk-v3''"
        ?e3 fresh no_disk r' c' d' r1' c1' d1' r2' c2' d2'] o3 cl' cl2' t3
    by simp
  show ?thesis
    using o cl ev first o3 cl' second by simp
qed

text \<open>
  Claim C4 as it is written fails: on the container that \<open>open_archive\<close> leaves,
  whose members are \<^verbatim>\<open>z\<close>, \<^verbatim>\<open>a/b\<close> and \<^verbatim>\<open>a-b/c\<close>, asking for \<^verbatim>\<open>absent\<close> gives a
  member object and a path, and no error.
\<close>

theorem get_member_absent_counterexample:
  "AlpineApkV2Container_open_archive example_env fresh no_disk =
     Some (Inr (),
      fresh\<lparr>members := Some [''z'', ''a/b'', ''a-b/c''],
            tmpdir := Some ''/tmp/d_alpine-apk-v2''\<rparr>,
      no_disk(''/tmp/d_alpine-apk-v2'' := Some example_tree))
   \<and> get_member_names
        (fresh\<lparr>members := Some [''z'', ''a/b'', ''a-b/c''],
               tmpdir := Some ''/tmp/d_alpine-apk-v2''\<rparr>)
       = Inr [''z'', ''a/b'', ''a-b/c'']
   \<and> ''absent'' \<notin> set [''z'', ''a/b'', ''a-b/c'']
   \<and> get_member
        (fresh\<lparr>members := Some [''z'', ''a/b'', ''a-b/c''],
               tmpdir := Some ''/tmp/d_alpine-apk-v2''\<rparr>) ''absent''
       = Inr (ArchiveMember
                (fresh\<lparr>members := Some [''z'', ''a/b'', ''a-b/c''],
                       tmpdir := Some ''/tmp/d_alpine-apk-v2''\<rparr>) ''absent'')
   \<and> extract_member
        (fresh\<lparr>members := Some [''z'', ''a/b'', ''a-b/c''],
               tmpdir := Some ''/tmp/d_alpine-apk-v2''\<rparr>) ''absent'' ''/dest''
       = Inr ''/tmp/d_alpine-apk-v2/absent''"
  by (simp add: AlpineApkV2Container_open_archive_def get_temporary_directory_def
      check_call_def tool_required_def example_env_def v2_command_def fresh_def
      collect_members_def example_tree_def get_member_names_def get_member_def
      extract_member_def path_join_def startswith_def endswith_def)

text \<open>
  Claim C4, amended. On every open container, \<open>get_member\<close> returns a member
  object for every name and \<open>extract\<close> returns the path of that name below the
  temporary directory, whether the name is among the members or not: the member list
  is not looked at.
\<close>

theorem get_member_unchecked:
  "get_member c n = Inr (ArchiveMember c n)
   \<and> (tmpdir c = Some t \<longrightarrow> extract_member c n dest = Inr (path_join t n))
   \<and> extract_member (c\<lparr>members := ms\<rparr>) n dest = extract_member c n dest"
  by (simp add: get_member_def extract_member_def)

text \<open>Claim C4, amended, on a container with no members.\<close>

theorem get_member_unchecked_witness:
  "extract_member (fresh\<lparr>members := Some [], tmpdir := Some ''/tmp/w''\<rparr>) ''a/b'' ''/dest''
     = Inr ''/tmp/w/a/b''"
  using get_member_unchecked [of "fresh\<lparr>members := Some [], tmpdir := Some ''/tmp/w''\<rparr>"
      "''a/b''" "''/tmp/w''" "''/dest''"]
  by (simp add: path_join_def startswith_def endswith_def)


lemma open_archive_members:
  assumes "opn = AlpineApkV2Container_open_archive \<and> suffix = ''alpine-apk-v2''
         \<or> opn = AlpineApkV3Container_open_archive \<and> suffix = ''alpine-apk-v3''"
    and "opn e c0 d0 = Some (Inr (), c, d)"
  shows "\<exists>pre. tmpdir c = Some (pre @ suffix)
           \<and> members c = Some (collect_members (pre @ suffix) d)"
  using assms
  by (auto simp: AlpineApkV2Container_open_archive_def AlpineApkV3Container_open_archive_def
      get_temporary_directory_def Let_def split: option.splits prod.splits sum.splits if_splits)

text \<open>
  Claim C1 as it is written fails: with a file \<^verbatim>\<open>z\<close> beside the directories \<^verbatim>\<open>a\<close>
  and \<^verbatim>\<open>a-b\<close>, the members are \<^verbatim>\<open>z\<close>, \<^verbatim>\<open>a/b\<close>, \<^verbatim>\<open>a-b/c\<close>, which is not the
  lexicographic order of the paths.
\<close>

theorem open_archive_members_order_counterexample:
  "AlpineApkV2Container_open_archive example_env fresh no_disk =
     Some (Inr (),
      fresh\<lparr>members := Some [''z'', ''a/b'', ''a-b/c''],
            tmpdir := Some ''/tmp/d_alpine-apk-v2''\<rparr>,
      no_disk(''/tmp/d_alpine-apk-v2'' := Some example_tree))
   \<and> get_member_names
        (fresh\<lparr>members := Some [''z'', ''a/b'', ''a-b/c''],
               tmpdir := Some ''/tmp/d_alpine-apk-v2''\<rparr>)
       = Inr [''z'', ''a/b'', ''a-b/c'']
   \<and> \<not> sorted_wrt (<) [''z'', ''a/b'', ''a-b/c'']"
  by (simp add: AlpineApkV2Container_open_archive_def get_temporary_directory_def
      check_call_def tool_required_def example_env_def v2_command_def fresh_def
      collect_members_def example_tree_def path_join_def startswith_def endswith_def
      get_member_names_def)

text \<open>
  Claim C1, amended. When \<open>open_archive\<close> of either class succeeds on a well-formed
  workspace, the member list has no duplicates and is strictly increasing in the
  order of the walk: paths are compared component by component, the names of one
  level lexicographically, and the files of a directory come before everything in
  its subdirectories.
\<close>

theorem open_archive_members_order:
  assumes "opn = AlpineApkV2Container_open_archive \<or> opn = AlpineApkV3Container_open_archive"
    and "opn e c0 d0 = Some (Inr (), c, d)"
    and "wf_workspace c d"
  shows "\<exists>ms. get_member_names c = Inr ms \<and> distinct ms \<and> sorted_wrt walk_before ms"
proof -
  from assms(1) obtain suffix where
    s: "opn = AlpineApkV2Container_open_archive \<and> suffix = ''alpine-apk-v2''
         \<or> opn = AlpineApkV3Container_open_archive \<and> suffix = ''alpine-apk-v3''"
    by auto
  from open_archive_members [OF s assms(2)] obtain pre where
    t: "tmpdir c = Some (pre @ suffix)"
    and m: "members c = Some (collect_members (pre @ suffix) d)"
    by blast
  have ne: "pre @ suffix \<noteq> []" and l: "last (pre @ suffix) \<noteq> CHR ''/''"
    using s by auto
  have wf: "case d (pre @ suffix) of None \<Rightarrow> True | Some entries \<Rightarrow> wf_node (Dir entries)"
    using assms(3) t by (simp add: wf_workspace_def)
  have sorted: "sorted_wrt walk_before (collect_members (pre @ suffix) d)"
    using ne l wf by (rule collect_members_sorted)
  then have "distinct (collect_members (pre @ suffix) d)"
    by (rule sorted_wrt_irrefl_distinct) (simp add: walk_before_def walk_less_irrefl)
  with sorted m show ?thesis
    by (simp add: get_member_names_def)
qed

text \<open>Claim C1, amended, on the example workspace extracted by the version 3 class.\<close>

theorem open_archive_members_order_witness:
  "(\<exists>c d. AlpineApkV3Container_open_archive example_env fresh no_disk = Some (Inr (), c, d)
       \<and> wf_workspace c d
       \<and> get_member_names c = Inr [''z'', ''a/b'', ''a-b/c''])
   \<and> distinct [''z'', ''a/b'', ''a-b/c'']
   \<and> sorted_wrt walk_before [''z'', ''a/b'', ''a-b/c'']"
proof -
  let ?c = "fresh\<lparr>members := Some [''z'', ''a/b'', ''a-b/c''], tmpdir := Some ''/tmp/d_alpine-apk-v3''\<rparr>"
  let ?d = "no_disk(''/tmp/d_alpine-apk-v3'' := Some example_tree)"
  have o: "AlpineApkV3Container_open_archive example_env fresh no_disk = Some (Inr (), ?c, ?d)"
    by (simp add: AlpineApkV3Container_open_archive_def get_temporary_directory_def
        check_call_def tool_required_def example_env_def fresh_def
        collect_members_def example_tree_def path_join_def startswith_def endswith_def)
  have wf: "wf_workspace ?c ?d"
    by (simp add: wf_workspace_def example_tree_def)
  have g: "get_member_names ?c = Inr [''z'', ''a/b'', ''a-b/c'']"
    by (simp add: get_member_names_def)
  from open_archive_members_order
      [of AlpineApkV3Container_open_archive example_env fresh no_disk ?c ?d] o wf g
  have "distinct [''z'', ''a/b'', ''a-b/c''] \<and> sorted_wrt walk_before [''z'', ''a/b'', ''a-b/c'']"
    by auto
  with o wf g show ?thesis by blast
qed

end
